theory Spec2Isabelle
  imports Complex_Main "HOL-Library.Sublist" "HOL-Library.List_Lexorder" "HOL-Library.Char_ord"
    "HOL-Library.Code_Target_Nat"
begin

section \<open>JavaScript strings and character classes\<close>

text \<open>
  A JavaScript string is modelled as a \<^typ>\<open>string\<close>: a list of code units, each below 256
  (the Latin-1 range of UTF-16). The character classes below are the ECMAScript classes
  restricted to that range: \<open>\s\<close> is TAB, LF, VT, FF, CR, SPACE and NBSP; the line terminators
  that \<open>.\<close> excludes are LF and CR.
\<close>

definition dq :: char where
  "dq = CHR 0x22"

definition sq :: char where
  "sq = CHR 0x27"

definition is_space :: "char \<Rightarrow> bool" where
  "is_space c \<longleftrightarrow> c \<in> set [CHR 0x09, CHR 0x0A, CHR 0x0B, CHR 0x0C, CHR 0x0D, CHR 0x20, CHR 0xA0]"

definition is_digit :: "char \<Rightarrow> bool" where
  "is_digit c \<longleftrightarrow> CHR ''0'' \<le> c \<and> c \<le> CHR ''9''"

definition any_char :: "char \<Rightarrow> bool" where
  "any_char c \<longleftrightarrow> True"

definition dot :: "char \<Rightarrow> bool" where
  "dot c \<longleftrightarrow> c \<noteq> CHR 0x0A \<and> c \<noteq> CHR 0x0D"

definition is_not :: "char \<Rightarrow> char \<Rightarrow> bool" where
  "is_not d c \<longleftrightarrow> c \<noteq> d"

definition is_chr :: "char \<Rightarrow> char \<Rightarrow> bool" where
  "is_chr d c \<longleftrightarrow> c = d"

definition is_hex_lower :: "char \<Rightarrow> bool" where
  "is_hex_lower c \<longleftrightarrow> is_digit c \<or> (CHR ''a'' \<le> c \<and> c \<le> CHR ''f'')"

definition is_path_command :: "char \<Rightarrow> bool" where
  "is_path_command c \<longleftrightarrow> c \<in> set ''MLHVCSQTAZmlhvcsqtaz''"

definition id_safe :: "char \<Rightarrow> bool" where
  "id_safe c \<longleftrightarrow> (CHR ''a'' \<le> c \<and> c \<le> CHR ''z'') \<or> (CHR ''A'' \<le> c \<and> c \<le> CHR ''Z'')
      \<or> is_digit c \<or> c = CHR ''_'' \<or> c = CHR ''-''"

definition not_slash_dot :: "char \<Rightarrow> bool" where
  "not_slash_dot c \<longleftrightarrow> c \<noteq> CHR ''/'' \<and> c \<noteq> CHR ''.''"

text \<open>
  Case folding of the \<open>i\<close> flag (ECMAScript Canonicalize without the \<open>u\<close> flag). Every
  pattern character of the programs is ASCII, and a code unit above 127 never canonicalizes
  to an ASCII one, so folding the ASCII letters is all that a comparison can observe.
\<close>

definition canon :: "char \<Rightarrow> char" where
  "canon c = (if CHR ''a'' \<le> c \<and> c \<le> CHR ''z'' then char_of (of_char c - (32::nat)) else c)"

definition ascii_lower :: "char \<Rightarrow> char" where
  "ascii_lower c = (if CHR ''A'' \<le> c \<and> c \<le> CHR ''Z'' then char_of (of_char c + (32::nat)) else c)"

definition eqc :: "bool \<Rightarrow> char \<Rightarrow> char \<Rightarrow> bool" where
  "eqc ci x c = (if ci then canon x = canon c else x = c)"

definition clsm :: "bool \<Rightarrow> (char \<Rightarrow> bool) \<Rightarrow> char \<Rightarrow> bool" where
  "clsm ci P x \<longleftrightarrow> P x \<or> (ci \<and> (P (canon x) \<or> P (ascii_lower x)))"

text \<open>\<open>String.prototype.toLowerCase\<close>, \<open>endsWith\<close>, \<open>trim\<close> and \<open>padStart\<close>.\<close>

definition toLowerCase_char :: "char \<Rightarrow> char" where
  "toLowerCase_char c =
     (if (CHR ''A'' \<le> c \<and> c \<le> CHR ''Z'') \<or> (CHR 0xC0 \<le> c \<and> c \<le> CHR 0xDE \<and> c \<noteq> CHR 0xD7)
      then char_of (of_char c + (32::nat)) else c)"

definition toLowerCase :: "string \<Rightarrow> string" where
  "toLowerCase s = map toLowerCase_char s"

definition endsWith :: "string \<Rightarrow> string \<Rightarrow> bool" where
  "endsWith s w \<longleftrightarrow> length w \<le> length s \<and> drop (length s - length w) s = w"

definition trim :: "string \<Rightarrow> string" where
  "trim s = rev (dropWhile is_space (rev (dropWhile is_space s)))"

definition padStart :: "nat \<Rightarrow> char \<Rightarrow> string \<Rightarrow> string" where
  "padStart n c s = replicate (n - length s) c @ s"

section \<open>Regular expressions\<close>

text \<open>
  The patterns of the programs use literals, character classes, quantified classes (greedy
  \<open>*\<close>, \<open>+\<close>, \<open>?\<close>, \<open>{n,}\<close> and lazy \<open>*?\<close>), capture groups, back references and \<open>$\<close>. No
  pattern looks behind the position it starts at, so a match at a position is a function of
  the rest of the string from there.

  \<open>run\<close> is the backtracking matcher: it returns every way the pattern can match at the start
  of the string, in the order a backtracking engine tries them, each as the captures made and the
  text left over. A match is the first of them.
\<close>

datatype rx =
    Eps
  | Chr char
  | Cls "char \<Rightarrow> bool"
  | Seq rx rx
  | Rep nat "nat option" "char \<Rightarrow> bool"
  | Lazy "char \<Rightarrow> bool"
  | Grp rx
  | Bref nat
  | Eos

type_synonym mstate = "string list \<times> string"

fun run :: "bool \<Rightarrow> rx \<Rightarrow> mstate \<Rightarrow> mstate list" where
  "run ci Eps st = [st]"
| "run ci (Chr c) (caps, s) =
     (case s of [] \<Rightarrow> [] | x # xs \<Rightarrow> if eqc ci x c then [(caps, xs)] else [])"
| "run ci (Cls P) (caps, s) =
     (case s of [] \<Rightarrow> [] | x # xs \<Rightarrow> if clsm ci P x then [(caps, xs)] else [])"
| "run ci (Seq a b) st = concat (map (run ci b) (run ci a st))"
| "run ci (Rep lo hi P) (caps, s) =
     (let n = length (takeWhile (clsm ci P) s);
          m = (case hi of None \<Rightarrow> n | Some h \<Rightarrow> min h n)
      in map (\<lambda>k. (caps, drop k s)) (rev [lo ..< Suc m]))"
| "run ci (Lazy P) (caps, s) =
     map (\<lambda>k. (caps, drop k s)) [0 ..< Suc (length (takeWhile (clsm ci P) s))]"
| "run ci (Grp r) (caps, s) =
     map (\<lambda>(caps', s'). (caps' @ [take (length s - length s') s], s')) (run ci r (caps, s))"
| "run ci (Bref k) (caps, s) =
     (if 0 < k \<and> k \<le> length caps
      then (let w = caps ! (k - 1) in
            if length w \<le> length s \<and> list_all2 (eqc ci) (take (length w) s) w
            then [(caps, drop (length w) s)] else [])
      else [(caps, s)])"
| "run ci Eos (caps, s) = (if s = [] then [(caps, s)] else [])"

definition match_at :: "bool \<Rightarrow> rx \<Rightarrow> string \<Rightarrow> (string list \<times> nat) option" where
  "match_at ci r s =
     (case run ci r ([], s) of [] \<Rightarrow> None | (caps, rest) # _ \<Rightarrow> Some (caps, length s - length rest))"

definition lit :: "string \<Rightarrow> rx" where
  "lit w = foldr (\<lambda>c r. Seq (Chr c) r) w Eps"

definition seqs :: "rx list \<Rightarrow> rx" where
  "seqs rs = foldr Seq rs Eps"

text \<open>
  \<open>String.prototype.replace\<close> with a global pattern first collects the matches from left to
  right, each search starting where the last match ended (one code unit further after an empty
  match), then builds the result from the text between the matches and the replacement of each.
  \<open>scan\<close> is the first phase: the string cut into the characters kept and the matches, each
  with its captures.
\<close>

datatype piece = Keep char | Hit string "string list"

fun scan :: "bool \<Rightarrow> rx \<Rightarrow> string \<Rightarrow> piece list" where
  "scan ci r [] = (case match_at ci r [] of None \<Rightarrow> [] | Some (caps, n) \<Rightarrow> [Hit [] caps])"
| "scan ci r (c # cs) =
     (case match_at ci r (c # cs) of
        None \<Rightarrow> Keep c # scan ci r cs
      | Some (caps, n) \<Rightarrow>
          Hit (take n (c # cs)) caps #
            (if n = 0 then Keep c # scan ci r cs else scan ci r (drop (n - 1) cs)))"

fun subst :: "(string \<Rightarrow> string list \<Rightarrow> string) \<Rightarrow> piece \<Rightarrow> string" where
  "subst f (Keep c) = [c]"
| "subst f (Hit m caps) = f m caps"

definition replaceAll :: "bool \<Rightarrow> rx \<Rightarrow> (string \<Rightarrow> string list \<Rightarrow> string) \<Rightarrow> string \<Rightarrow> string" where
  "replaceAll ci r f s = concat (map (subst f) (scan ci r s))"

text \<open>A pattern without the \<open>g\<close> flag replaces the leftmost match only.\<close>

fun replaceFirst :: "bool \<Rightarrow> rx \<Rightarrow> (string \<Rightarrow> string list \<Rightarrow> string) \<Rightarrow> string \<Rightarrow> string" where
  "replaceFirst ci r f [] = (case match_at ci r [] of None \<Rightarrow> [] | Some (caps, n) \<Rightarrow> f [] caps)"
| "replaceFirst ci r f (c # cs) =
     (case match_at ci r (c # cs) of
        None \<Rightarrow> c # replaceFirst ci r f cs
      | Some (caps, n) \<Rightarrow> f (take n (c # cs)) caps @ drop n (c # cs))"

text \<open>
  Exceptions are values. A replacement computed by a callback that may throw gives a result in
  \<open>js_error + string\<close>; the callbacks run in the order of the matches and the first exception
  ends the call.
\<close>

datatype js_error = RangeError | URIError | IOError

fun substE :: "(string \<Rightarrow> string list \<Rightarrow> js_error + string) \<Rightarrow> piece list \<Rightarrow> js_error + string" where
  "substE f [] = Inr []"
| "substE f (Keep c # ps) = (case substE f ps of Inl e \<Rightarrow> Inl e | Inr t \<Rightarrow> Inr (c # t))"
| "substE f (Hit m caps # ps) =
     (case f m caps of
        Inl e \<Rightarrow> Inl e
      | Inr r \<Rightarrow> (case substE f ps of Inl e \<Rightarrow> Inl e | Inr t \<Rightarrow> Inr (r @ t)))"

definition replaceAllE ::
  "bool \<Rightarrow> rx \<Rightarrow> (string \<Rightarrow> string list \<Rightarrow> js_error + string) \<Rightarrow> string \<Rightarrow> js_error + string" where
  "replaceAllE ci r f s = substE f (scan ci r s)"

definition bindE :: "js_error + 'a \<Rightarrow> ('a \<Rightarrow> js_error + 'b) \<Rightarrow> js_error + 'b" where
  "bindE x f = (case x of Inl e \<Rightarrow> Inl e | Inr v \<Rightarrow> f v)"

text \<open>Replacement templates: a fixed text, and \<open>$k\<close> for the text of capture \<open>k\<close>.\<close>

definition const_repl :: "string \<Rightarrow> string \<Rightarrow> string list \<Rightarrow> string" where
  "const_repl w m caps = w"

definition grp :: "string list \<Rightarrow> nat \<Rightarrow> string" where
  "grp caps k = (if 0 < k \<and> k \<le> length caps then caps ! (k - 1) else [])"

section \<open>Numbers\<close>

text \<open>
  A Number that the programs compute is never negative: it is NaN, \<open>+\<infinity>\<close> or a finite double,
  \<open>Fin m e\<close> standing for \<open>m * 2 ^ e\<close>. \<open>number_value a b\<close> is the double nearest to
  \<open>a / b\<close>, ties to the even significand (ECMAScript's "Number value for" a mathematical value),
  in the normal form \<open>2 ^ 52 \<le> m < 2 ^ 53\<close>, or \<open>e = - 1074\<close> for a subnormal.
\<close>

datatype num = NaN | PosInf | Fin nat int

fun bitlen :: "nat \<Rightarrow> nat" where
  "bitlen n = (if n = 0 then 0 else Suc (bitlen (n div 2)))"

definition round_half_even :: "nat \<Rightarrow> nat \<Rightarrow> nat" where
  "round_half_even n d =
     (let q = n div d; r = n mod d
      in if 2 * r < d then q else if d < 2 * r then q + 1 else if even q then q else q + 1)"

definition number_value :: "nat \<Rightarrow> nat \<Rightarrow> num" where
  "number_value a b =
     (if a = 0 then Fin 0 0 else
      let t = int (bitlen a) - int (bitlen b);
          lg = (if (if 0 \<le> t then b * 2 ^ nat t \<le> a else b \<le> a * 2 ^ nat (- t)) then t else t - 1);
          e = max (lg - 52) (- 1074);
          m = (if 0 \<le> e then round_half_even a (b * 2 ^ nat e)
               else round_half_even (a * 2 ^ nat (- e)) b)
      in if m = 0 then Fin 0 0
         else if m = 2 ^ 53 then (if 971 < e + 1 then PosInf else Fin (2 ^ 52) (e + 1))
         else if 971 < e then PosInf else Fin m e)"

definition digit_val :: "char \<Rightarrow> nat" where
  "digit_val c = of_char c - 48"

definition nat_of_digits :: "string \<Rightarrow> nat" where
  "nat_of_digits ds = foldl (\<lambda>a c. 10 * a + digit_val c) 0 ds"

definition radix_digit :: "nat \<Rightarrow> char" where
  "radix_digit d = (if d < 10 then char_of (48 + d) else char_of (87 + d))"

fun radix_digits :: "nat \<Rightarrow> nat \<Rightarrow> string" where
  "radix_digits b n =
     (if b < 2 \<or> n < b then [radix_digit n] else radix_digits b (n div b) @ [radix_digit (n mod b)])"

definition dec :: "nat \<Rightarrow> string" where
  "dec n = radix_digits 10 n"

text \<open>
  \<open>parseFloat\<close> and \<open>parseInt\<close> on the texts the programs pass them: a match of
  \<open>\d+\.\d{3,}\<close> and a capture of \<open>\d+\<close>. Such a text has no sign, no exponent, no blank and
  no radix prefix, so the longest numeric prefix is digits, then possibly a point and digits.
\<close>

definition parseFloat :: "string \<Rightarrow> num" where
  "parseFloat s =
     (let ip = takeWhile is_digit s;
          rest = dropWhile is_digit s;
          fp = (case rest of [] \<Rightarrow> [] | c # r \<Rightarrow> if c = CHR ''.'' then takeWhile is_digit r else [])
      in if ip = [] \<and> fp = [] then NaN
         else number_value (nat_of_digits (ip @ fp)) (10 ^ length fp))"

definition parseInt :: "string \<Rightarrow> num" where
  "parseInt s =
     (let ds = takeWhile is_digit s
      in if ds = [] then NaN else number_value (nat_of_digits ds) 1)"

text \<open>
  \<open>Number.prototype.toString\<close> of a finite value of at least \<open>10 ^ 21\<close>: the shortest
  decimal significand that reads back as the same double, then the exponent. \<open>X\<close> is the
  value, an integer of \<open>nd\<close> decimal digits.
\<close>

definition digits_candidate :: "nat \<Rightarrow> int \<Rightarrow> nat \<Rightarrow> nat \<Rightarrow> nat \<Rightarrow> (nat \<times> nat) option" where
  "digits_candidate m e X nd k =
     (let p = 10 ^ (nd - k);
          lo = X div p;
          ok_lo = (number_value (lo * p) 1 = Fin m e);
          ok_hi = (number_value ((lo + 1) * p) 1 = Fin m e);
          d_lo = X - lo * p;
          d_hi = (lo + 1) * p - X
      in if ok_lo \<and> ok_hi
         then (if d_lo < d_hi then Some (lo, p)
               else if d_hi < d_lo then Some (lo + 1, p)
               else if even lo then Some (lo, p) else Some (lo + 1, p))
         else if ok_lo then Some (lo, p)
         else if ok_hi then Some (lo + 1, p)
         else None)"

fun shortest_digits :: "nat \<Rightarrow> int \<Rightarrow> nat \<Rightarrow> nat \<Rightarrow> nat \<Rightarrow> nat \<Rightarrow> nat \<times> nat" where
  "shortest_digits m e X nd k 0 = (X, 1)"
| "shortest_digits m e X nd k (Suc fuel) =
     (case digits_candidate m e X nd k of
        Some sp \<Rightarrow> sp
      | None \<Rightarrow> shortest_digits m e X nd (Suc k) fuel)"

definition exponent_notation :: "nat \<Rightarrow> int \<Rightarrow> string" where
  "exponent_notation m e =
     (let X = m * 2 ^ nat e;
          nd = length (dec X);
          (s, p) = shortest_digits m e X nd 1 (nd - 1);
          ds = rev (dropWhile (\<lambda>c. c = CHR ''0'') (rev (dec s)));
          n = length (dec (s * p))
      in (case ds of [] \<Rightarrow> [] | d # ds' \<Rightarrow> if ds' = [] then [d] else d # CHR ''.'' # ds')
         @ ''e+'' @ dec (n - 1))"

text \<open>
  \<open>Number.prototype.toFixed\<close>: a RangeError for a digit count outside 0..100, the
  general \<open>toString\<close> for a value that is not finite or is at least \<open>10 ^ 21\<close>, and
  otherwise the integer \<open>n\<close> nearest to \<open>x * 10 ^ f\<close> (the larger of two), written with a
  point before its last \<open>f\<close> digits.
\<close>

definition ge_1e21 :: "nat \<Rightarrow> int \<Rightarrow> bool" where
  "ge_1e21 m e \<longleftrightarrow> (if 0 \<le> e then 10 ^ 21 \<le> m * 2 ^ nat e else 10 ^ 21 * 2 ^ nat (- e) \<le> m)"

definition fixed_digits :: "nat \<Rightarrow> int \<Rightarrow> nat \<Rightarrow> string" where
  "fixed_digits m e f =
     (let n = (if 0 \<le> e then m * 2 ^ nat e * 10 ^ f
               else (2 * m * 10 ^ f + 2 ^ nat (- e)) div (2 * 2 ^ nat (- e)));
          ms = padStart (f + 1) CHR ''0'' (dec n)
      in if f = 0 then ms else take (length ms - f) ms @ ''.'' @ drop (length ms - f) ms)"

definition fixed_text :: "num \<Rightarrow> nat \<Rightarrow> string" where
  "fixed_text x f =
     (case x of
        NaN \<Rightarrow> ''NaN''
      | PosInf \<Rightarrow> ''Infinity''
      | Fin m e \<Rightarrow> if ge_1e21 m e then exponent_notation m e else fixed_digits m e f)"

definition toFixed :: "num \<Rightarrow> int \<Rightarrow> js_error + string" where
  "toFixed x fd = (if fd < 0 \<or> 100 < fd then Inl RangeError else Inr (fixed_text x (nat fd)))"

text \<open>
  \<open>Number.prototype.toString(radix)\<close> for a radix other than 10, on the integer values
  that \<open>parseInt\<close> returns: all the digits of the integer.
\<close>

definition int_value :: "nat \<Rightarrow> int \<Rightarrow> nat" where
  "int_value m e = (if 0 \<le> e then m * 2 ^ nat e else m div 2 ^ nat (- e))"

definition radix_text :: "num \<Rightarrow> nat \<Rightarrow> string" where
  "radix_text x radix =
     (case x of
        NaN \<Rightarrow> ''NaN''
      | PosInf \<Rightarrow> ''Infinity''
      | Fin m e \<Rightarrow> radix_digits radix (int_value m e))"

definition toString_radix :: "num \<Rightarrow> int \<Rightarrow> js_error + string" where
  "toString_radix x radix =
     (if radix < 2 \<or> 36 < radix then Inl RangeError else Inr (radix_text x (nat radix)))"

text \<open>
  \<open>encodeURIComponent\<close> on code units below 256: an unreserved character stands for
  itself, any other is the percent-escaped bytes of its UTF-8 encoding (one byte below
  128, two from 128 on).
\<close>

definition uri_unreserved :: "char \<Rightarrow> bool" where
  "uri_unreserved c \<longleftrightarrow> (CHR ''a'' \<le> c \<and> c \<le> CHR ''z'') \<or> (CHR ''A'' \<le> c \<and> c \<le> CHR ''Z'')
      \<or> is_digit c \<or> c \<in> set ''-_.!~*()'' \<or> c = sq"

definition hex_upper :: "nat \<Rightarrow> char" where
  "hex_upper d = (if d < 10 then char_of (48 + d) else char_of (55 + d))"

definition pct :: "nat \<Rightarrow> string" where
  "pct b = [CHR ''%'', hex_upper (b div 16), hex_upper (b mod 16)]"

definition encode_unit :: "char \<Rightarrow> string" where
  "encode_unit c =
     (if uri_unreserved c then [c]
      else (let n = (of_char c :: nat)
            in if n < 128 then pct n else pct (192 + n div 64) @ pct (128 + n mod 64)))"

definition encodeURIComponent :: "string \<Rightarrow> string" where
  "encodeURIComponent s = concat (map encode_unit s)"

section \<open>The optimizer of part\_000: ultraOptimizeSVG\<close>

definition PRECISION :: int where
  "PRECISION = 2"

definition AGGRESSIVE_OPTIMIZE :: bool where
  "AGGRESSIVE_OPTIMIZE = True"

text \<open>\<open>/<\?xml[^>]*\?>/g\<close>\<close>

definition rx_xml_decl :: rx where
  "rx_xml_decl = seqs [lit ''<?xml'', Rep 0 None (is_not CHR ''>''), lit ''?>'']"

text \<open>\<open>/<!--[\s\S]*?-->/g\<close>\<close>

definition rx_comment :: rx where
  "rx_comment = seqs [lit ''<!--'', Lazy any_char, lit ''-->'']"

text \<open>\<open>/<metadata[\s\S]*?<\/metadata>/gi\<close>, and the same for \<open>title\<close> and \<open>desc\<close>.\<close>

definition rx_element :: "string \<Rightarrow> rx" where
  "rx_element name = seqs [lit (''<'' @ name), Lazy any_char, lit (''</'' @ name @ ''>'')]"

text \<open>\<open>/\s*xmlns:.*?=".*?"/g\<close>\<close>

definition rx_xmlns_lazy :: rx where
  "rx_xmlns_lazy =
     seqs [Rep 0 None is_space, lit ''xmlns:'', Lazy dot, lit (''='' @ [dq]), Lazy dot, Chr dq]"

text \<open>\<open>/\s*xml:space=".*?"/g\<close>, and the same for \<open>data-name\<close> and \<open>id\<close>.\<close>

definition rx_attr_lazy :: "string \<Rightarrow> rx" where
  "rx_attr_lazy name = seqs [Rep 0 None is_space, lit (name @ ''='' @ [dq]), Lazy dot, Chr dq]"

text \<open>\<open>/(\d+\.\d{3,})/g\<close>\<close>

definition rx_decimal :: rx where
  "rx_decimal = Grp (seqs [Rep 1 None is_digit, Chr CHR ''.'', Rep 3 None is_digit])"

text \<open>\<open>/\s*([MLHVCSQTAZmlhvcsqtaz])\s*/g\<close>\<close>

definition rx_path_command :: rx where
  "rx_path_command = seqs [Rep 0 None is_space, Grp (Cls is_path_command), Rep 0 None is_space]"

text \<open>\<open>/\s+/g\<close>, \<open>/>\s+</g\<close> and \<open>/\s*=\s*/g\<close>\<close>

definition rx_spaces :: rx where
  "rx_spaces = Rep 1 None is_space"

definition rx_between_tags :: rx where
  "rx_between_tags = seqs [Chr CHR ''>'', Rep 1 None is_space, Chr CHR ''<'']"

definition rx_equals :: rx where
  "rx_equals = seqs [Rep 0 None is_space, Chr CHR ''='', Rep 0 None is_space]"

text \<open>\<open>/rgb\(\s*(\d+)\s*,\s*(\d+)\s*,\s*(\d+)\s*\)/gi\<close>\<close>

definition rx_rgb :: rx where
  "rx_rgb =
     seqs [lit ''rgb('', Rep 0 None is_space, Grp (Rep 1 None is_digit), Rep 0 None is_space,
           Chr CHR '','', Rep 0 None is_space, Grp (Rep 1 None is_digit), Rep 0 None is_space,
           Chr CHR '','', Rep 0 None is_space, Grp (Rep 1 None is_digit), Rep 0 None is_space,
           Chr CHR '')'']"

text \<open>\<open>/#([0-9a-f])\1([0-9a-f])\2([0-9a-f])\3/gi\<close>\<close>

definition rx_hex6 :: rx where
  "rx_hex6 =
     seqs [Chr CHR ''#'', Grp (Cls is_hex_lower), Bref 1, Grp (Cls is_hex_lower), Bref 2,
           Grp (Cls is_hex_lower), Bref 3]"

text \<open>\<open>/\s*fill-rule="nonzero"/g\<close>, and the same for the other default values.\<close>

definition rx_attr_value :: "string \<Rightarrow> string \<Rightarrow> rx" where
  "rx_attr_value name v = seqs [Rep 0 None is_space, lit (name @ ''='' @ [dq] @ v @ [dq])]"

text \<open>\<open>/\s*version='[^']*'/g\<close>\<close>

definition rx_version :: rx where
  "rx_version =
     seqs [Rep 0 None is_space, lit (''version='' @ [sq]), Rep 0 None (is_not sq), Chr sq]"

text \<open>\<open>/transform='translate\(0,?\s*0?\)'/g\<close>\<close>

definition rx_translate0 :: rx where
  "rx_translate0 =
     seqs [lit (''transform='' @ [sq] @ ''translate(0''), Rep 0 (Some 1) (is_chr CHR '',''),
           Rep 0 None is_space, Rep 0 (Some 1) (is_chr CHR ''0''), lit ('')'' @ [sq])]"

text \<open>\<open>/<g[^>]*>\s*<\/g>/g\<close>\<close>

definition rx_empty_group :: rx where
  "rx_empty_group =
     seqs [lit ''<g'', Rep 0 None (is_not CHR ''>''), Chr CHR ''>'', Rep 0 None is_space,
           lit ''</g>'']"

text \<open>The callbacks of the two replacements that compute their text.\<close>

definition round_decimal :: "string \<Rightarrow> string list \<Rightarrow> js_error + string" where
  "round_decimal m caps = toFixed (parseFloat m) PRECISION"

definition hex_channel :: "string \<Rightarrow> js_error + string" where
  "hex_channel x = bindE (toString_radix (parseInt x) 16) (\<lambda>h. Inr (padStart 2 CHR ''0'' h))"

definition rgb_to_hex :: "string \<Rightarrow> string list \<Rightarrow> js_error + string" where
  "rgb_to_hex m caps =
     bindE (hex_channel (grp caps 1)) (\<lambda>r.
     bindE (hex_channel (grp caps 2)) (\<lambda>g.
     bindE (hex_channel (grp caps 3)) (\<lambda>b.
       Inr (''#'' @ r @ g @ b))))"

definition short_hex :: "string \<Rightarrow> string list \<Rightarrow> string" where
  "short_hex m caps = ''#'' @ grp caps 1 @ grp caps 2 @ grp caps 3"

text \<open>The ten numbered steps of \<open>ultraOptimizeSVG\<close>, in the order of the source.\<close>

definition ultra_step1 :: "string \<Rightarrow> string" where
  "ultra_step1 s =
     replaceAll False rx_comment (const_repl [])
       (replaceAll False rx_xml_decl (const_repl []) s)"

definition ultra_step2 :: "string \<Rightarrow> string" where
  "ultra_step2 s =
     replaceAll True (rx_element ''desc'') (const_repl [])
       (replaceAll True (rx_element ''title'') (const_repl [])
         (replaceAll True (rx_element ''metadata'') (const_repl []) s))"

definition ultra_step3 :: "string \<Rightarrow> string" where
  "ultra_step3 s =
     replaceAll False (rx_attr_lazy ''id'') (const_repl [])
       (replaceAll False (rx_attr_lazy ''data-name'') (const_repl [])
         (replaceAll False (rx_attr_lazy ''xml:space'') (const_repl [])
           (replaceAll False rx_xmlns_lazy (const_repl []) s)))"

definition ultra_step4 :: "string \<Rightarrow> js_error + string" where
  "ultra_step4 s = replaceAllE False rx_decimal round_decimal s"

definition ultra_step5 :: "string \<Rightarrow> string" where
  "ultra_step5 s =
     replaceAll False rx_equals (const_repl ''='')
       (replaceAll False rx_between_tags (const_repl ''><'')
         (replaceAll False rx_spaces (const_repl '' '')
           (replaceAll False rx_path_command (\<lambda>m caps. grp caps 1) s)))"

definition ultra_step6 :: "string \<Rightarrow> js_error + string" where
  "ultra_step6 s =
     bindE (replaceAllE True rx_rgb rgb_to_hex s) (\<lambda>t. Inr (replaceAll True rx_hex6 short_hex t))"

definition ultra_step7 :: "string \<Rightarrow> string" where
  "ultra_step7 s =
     replaceAll False (rx_attr_value ''opacity'' ''1'') (const_repl [])
       (replaceAll False (rx_attr_value ''stroke-opacity'' ''1'') (const_repl [])
         (replaceAll False (rx_attr_value ''fill-opacity'' ''1'') (const_repl [])
           (replaceAll False (rx_attr_value ''fill-rule'' ''nonzero'') (const_repl []) s)))"

definition ultra_step8 :: "string \<Rightarrow> string" where
  "ultra_step8 s = replaceAll False (Chr dq) (const_repl [sq]) s"

definition ultra_step9 :: "string \<Rightarrow> string" where
  "ultra_step9 s = trim s"

definition ultra_step10 :: "string \<Rightarrow> string" where
  "ultra_step10 s =
     (if AGGRESSIVE_OPTIMIZE
      then replaceAll False rx_empty_group (const_repl [])
             (replaceAll False rx_translate0 (const_repl [])
               (replaceAll False rx_version (const_repl []) s))
      else s)"

definition ultraOptimizeSVG :: "string \<Rightarrow> js_error + string" where
  "ultraOptimizeSVG svgContent =
     bindE (ultra_step4 (ultra_step3 (ultra_step2 (ultra_step1 svgContent)))) (\<lambda>o4.
     bindE (ultra_step6 (ultra_step5 o4)) (\<lambda>o6.
       Inr (ultra_step10 (ultra_step9 (ultra_step8 (ultra_step7 o6))))))"

text \<open>The encoder of part\_000: six replacements of one character each, in this order.\<close>

definition data_uri_prefix :: string where
  "data_uri_prefix = ''data:image/svg+xml;charset=utf-8,''"

definition encode_part000 :: "string \<Rightarrow> string" where
  "encode_part000 optimized =
     replaceAll False (Cls is_space) (const_repl ''%20'')
       (replaceAll False (Chr CHR ''>'') (const_repl ''%3E'')
         (replaceAll False (Chr CHR ''<'') (const_repl ''%3C'')
           (replaceAll False (Chr CHR ''#'') (const_repl ''%23'')
             (replaceAll False (Chr sq) (const_repl ''%27'')
               (replaceAll False (Chr CHR ''%'') (const_repl ''%25'') optimized)))))"

definition svgToDataUri_part000 :: "string \<Rightarrow> js_error + string" where
  "svgToDataUri_part000 svgContent =
     bindE (ultraOptimizeSVG svgContent) (\<lambda>optimized.
       Inr (data_uri_prefix @ encode_part000 optimized))"

section \<open>The optimizer of ultra\_optimized\_svg\_bundler.js: optimizeSVG\<close>

text \<open>\<open>/\s*xmlns:[^=]*="[^"]*"/g\<close>\<close>

definition rx_xmlns :: rx where
  "rx_xmlns =
     seqs [Rep 0 None is_space, lit ''xmlns:'', Rep 0 None (is_not CHR ''=''), lit (''='' @ [dq]),
           Rep 0 None (is_not dq), Chr dq]"

text \<open>\<open>/\s*xml:space="[^"]*"/g\<close>, and the same for \<open>data-name\<close>.\<close>

definition rx_attr :: "string \<Rightarrow> rx" where
  "rx_attr name =
     seqs [Rep 0 None is_space, lit (name @ ''='' @ [dq]), Rep 0 None (is_not dq), Chr dq]"

definition opt_step1 :: "string \<Rightarrow> string" where
  "opt_step1 s =
     replaceAll True (rx_element ''desc'') (const_repl [])
       (replaceAll True (rx_element ''title'') (const_repl [])
         (replaceAll True (rx_element ''metadata'') (const_repl [])
           (replaceAll False rx_comment (const_repl [])
             (replaceAll False rx_xml_decl (const_repl []) s))))"

definition opt_step2 :: "string \<Rightarrow> string" where
  "opt_step2 s =
     replaceAll False (rx_attr ''data-name'') (const_repl [])
       (replaceAll False (rx_attr ''xml:space'') (const_repl [])
         (replaceAll False rx_xmlns (const_repl []) s))"

definition opt_step3 :: "string \<Rightarrow> js_error + string" where
  "opt_step3 s = replaceAllE False rx_decimal round_decimal s"

definition opt_step4 :: "string \<Rightarrow> string" where
  "opt_step4 s =
     trim (replaceAll False rx_equals (const_repl ''='')
       (replaceAll False rx_between_tags (const_repl ''><'')
         (replaceAll False rx_spaces (const_repl '' '') s)))"

definition opt_step5 :: "string \<Rightarrow> js_error + string" where
  "opt_step5 s =
     bindE (replaceAllE True rx_rgb rgb_to_hex s) (\<lambda>t. Inr (replaceAll True rx_hex6 short_hex t))"

definition opt_step6 :: "string \<Rightarrow> string" where
  "opt_step6 s =
     replaceAll False (rx_attr_value ''opacity'' ''1'') (const_repl [])
       (replaceAll False (rx_attr_value ''stroke-opacity'' ''1'') (const_repl [])
         (replaceAll False (rx_attr_value ''fill-opacity'' ''1'') (const_repl []) s))"

definition optimizeSVG :: "string \<Rightarrow> js_error + string" where
  "optimizeSVG svgContent =
     bindE (opt_step3 (opt_step2 (opt_step1 svgContent))) (\<lambda>o3.
     bindE (opt_step5 (opt_step4 o3)) (\<lambda>o5.
       Inr (opt_step6 o5)))"

definition svgToDataUri_fixed :: "string \<Rightarrow> js_error + string" where
  "svgToDataUri_fixed svgContent =
     bindE (optimizeSVG svgContent) (\<lambda>optimized.
       Inr (data_uri_prefix @ encodeURIComponent optimized))"

section \<open>The encoder of svg\_utf8\_bundler.js\<close>

text \<open>\<open>/<!--.*?-->/g\<close>\<close>

definition rx_comment_line :: rx where
  "rx_comment_line = seqs [lit ''<!--'', Lazy dot, lit ''-->'']"

definition clean_utf8 :: "string \<Rightarrow> string" where
  "clean_utf8 svgContent =
     replaceAll False rx_between_tags (const_repl ''><'')
       (replaceAll False rx_comment_line (const_repl [])
         (replaceAll False rx_spaces (const_repl '' '') (trim svgContent)))"

definition encode_utf8 :: "string \<Rightarrow> string" where
  "encode_utf8 optimized =
     replaceAll False (Chr CHR ''%'') (const_repl ''%25'')
       (replaceAll False (Chr CHR 0x0D) (const_repl ''%0D'')
         (replaceAll False (Chr CHR 0x0A) (const_repl ''%0A'')
           (replaceAll False (Chr dq) (const_repl [sq])
             (replaceAll False (Chr CHR ''#'') (const_repl ''%23'') optimized))))"

definition svgToDataUri_utf8 :: "string \<Rightarrow> string" where
  "svgToDataUri_utf8 svgContent = data_uri_prefix @ encode_utf8 (clean_utf8 svgContent)"

section \<open>The sprite builder: idFromFilename\<close>

text \<open>\<open>/\.[^/.]+$/\<close> (no \<open>g\<close> flag) and \<open>/[^a-zA-Z0-9_-]/g\<close>\<close>

definition rx_extension :: rx where
  "rx_extension = seqs [Chr CHR ''.'', Rep 1 None not_slash_dot, Eos]"

definition rx_unsafe :: rx where
  "rx_unsafe = Cls (\<lambda>c. \<not> id_safe c)"

definition idFromFilename :: "string \<Rightarrow> string" where
  "idFromFilename name =
     ''e_'' @ replaceAll False rx_unsafe (const_repl ''_'')
                (replaceFirst False rx_extension (const_repl []) name)"

section \<open>The bundlers\<close>

text \<open>
  The file system is the environment of a run: whether a path exists, the entries of a
  directory, the text of a file (each may throw), and whether a path can be written. A run ends
  with an exit status, and with the bundle it wrote to the output file, if it wrote one. The
  generated file is a function of the mapping and the counters (and of the time of the run);
  \<open>written\<close> is that data. Console output and the largest-reduction statistic of part\_000
  are left out: they are reporting only and do not throw.
\<close>

record fsys =
  existsSync :: "string \<Rightarrow> bool"
  readdirSync :: "string \<Rightarrow> js_error + string list"
  readFileSync :: "string \<Rightarrow> js_error + string"
  writable :: "string \<Rightarrow> bool"

record run_state =
  emojiData :: "string \<rightharpoonup> string"
  processed :: nat
  errors :: nat
  originalSize :: nat
  optimizedSize :: nat

record outcome =
  exit_code :: nat
  written :: "run_state option"

definition SPRITE_DIR :: string where
  "SPRITE_DIR = ''./sprite''"

definition OUTPUT_FILE :: string where
  "OUTPUT_FILE = ''./emojiData.js''"

definition init_state :: run_state where
  "init_state = \<lparr>emojiData = Map.empty, processed = 0, errors = 0, originalSize = 0, optimizedSize = 0\<rparr>"

text \<open>
  \<open>path.join\<close> and \<open>path.basename\<close> on a directory entry: a name without \<open>/\<close>. The
  suffix of \<open>basename\<close> is compared code unit by code unit.
\<close>

definition path_join :: "string \<Rightarrow> string \<Rightarrow> string" where
  "path_join d file = (if take 2 d = ''./'' then drop 2 d else d) @ ''/'' @ file"

definition basename :: "string \<Rightarrow> string \<Rightarrow> string" where
  "basename p ext = (if ext \<noteq> [] \<and> endsWith p ext then take (length p - length ext) p else p)"

text \<open>
  \<open>emojiData[key] = dataUri\<close> on an object literal: the key \<open>__proto__\<close> reaches the setter
  of \<open>Object.prototype\<close>, which ignores a string, so no property is made for it.
\<close>

definition obj_set :: "(string \<rightharpoonup> string) \<Rightarrow> string \<Rightarrow> string \<Rightarrow> (string \<rightharpoonup> string)" where
  "obj_set obj k v = (if k = ''__proto__'' then obj else obj(k \<mapsto> v))"

definition key_of :: "string \<Rightarrow> string" where
  "key_of file = basename file ''.svg''"

definition readable :: "fsys \<Rightarrow> string \<Rightarrow> bool" where
  "readable fs file =
     (case readFileSync fs (path_join SPRITE_DIR file) of Inl err \<Rightarrow> False | Inr text \<Rightarrow> True)"

text \<open>
  The body of the inner loop: the \<open>try\<close> block reads the file, encodes it and records it; the
  \<open>catch\<close> block counts an exception of either call.
\<close>

definition process_part000 :: "fsys \<Rightarrow> run_state \<Rightarrow> string \<Rightarrow> run_state" where
  "process_part000 fs st file =
     (case readFileSync fs (path_join SPRITE_DIR file) of
        Inl err \<Rightarrow> st\<lparr>errors := errors st + 1\<rparr>
      | Inr original \<Rightarrow>
          (case svgToDataUri_part000 original of
             Inl err \<Rightarrow> st\<lparr>errors := errors st + 1\<rparr>
           | Inr dataUri \<Rightarrow>
               st\<lparr>emojiData := obj_set (emojiData st) (key_of file) dataUri,
                  originalSize := originalSize st + length original,
                  optimizedSize := optimizedSize st + (length dataUri - length data_uri_prefix),
                  processed := processed st + 1\<rparr>))"

definition process_fixed :: "fsys \<Rightarrow> run_state \<Rightarrow> string \<Rightarrow> run_state" where
  "process_fixed fs st file =
     (case readFileSync fs (path_join SPRITE_DIR file) of
        Inl err \<Rightarrow> st\<lparr>errors := errors st + 1\<rparr>
      | Inr originalContent \<Rightarrow>
          (case svgToDataUri_fixed originalContent of
             Inl err \<Rightarrow> st\<lparr>errors := errors st + 1\<rparr>
           | Inr dataUri \<Rightarrow>
               st\<lparr>emojiData := obj_set (emojiData st) (key_of file) dataUri,
                  originalSize := originalSize st + length originalContent,
                  optimizedSize := optimizedSize st + length dataUri,
                  processed := processed st + 1\<rparr>))"

definition process_utf8 :: "fsys \<Rightarrow> run_state \<Rightarrow> string \<Rightarrow> run_state" where
  "process_utf8 fs st file =
     (case readFileSync fs (path_join SPRITE_DIR file) of
        Inl err \<Rightarrow> st\<lparr>errors := errors st + 1\<rparr>
      | Inr svgContent \<Rightarrow>
          (let dataUri = svgToDataUri_utf8 svgContent
           in st\<lparr>emojiData := obj_set (emojiData st) (key_of file) dataUri,
                 originalSize := originalSize st + length svgContent,
                 optimizedSize := optimizedSize st + length dataUri,
                 processed := processed st + 1\<rparr>))"

text \<open>
  The outer loop \<open>for (let i = 0; i < files.length; i += BATCH_SIZE)\<close> takes
  \<open>files.slice(i, i + BATCH_SIZE)\<close>; the inner loop runs the body on each file of the batch.
\<close>

definition slices :: "nat \<Rightarrow> 'a list \<Rightarrow> 'a list list" where
  "slices n xs = map (\<lambda>i. take n (drop (i * n) xs)) [0 ..< (length xs + n - 1) div n]"

definition process_batches ::
  "nat \<Rightarrow> (run_state \<Rightarrow> string \<Rightarrow> run_state) \<Rightarrow> string list \<Rightarrow> run_state" where
  "process_batches batch_size body files =
     foldl (\<lambda>st batch. foldl body st batch) init_state (slices batch_size files)"

text \<open>
  The main function, the same in the three scripts but for the batch size and the loop body:
  \<open>process.exit(1)\<close> when the directory is missing or holds no \<open>.svg\<close> file, the loop, then
  the write of the output file. An exception outside the loop (from \<open>readdirSync\<close> or
  \<open>writeFileSync\<close>) rejects the promise, and the handler at the call exits with status 1.
\<close>

definition is_svg_name :: "string \<Rightarrow> bool" where
  "is_svg_name file \<longleftrightarrow> endsWith (toLowerCase file) ''.svg''"

definition run_bundler ::
  "nat \<Rightarrow> (fsys \<Rightarrow> run_state \<Rightarrow> string \<Rightarrow> run_state) \<Rightarrow> fsys \<Rightarrow> outcome" where
  "run_bundler batch_size body fs =
     (if \<not> existsSync fs SPRITE_DIR then \<lparr>exit_code = 1, written = None\<rparr>
      else (case readdirSync fs SPRITE_DIR of
              Inl err \<Rightarrow> \<lparr>exit_code = 1, written = None\<rparr>
            | Inr entries \<Rightarrow>
                (let files = sort (filter is_svg_name entries)
                 in if length files = 0 then \<lparr>exit_code = 1, written = None\<rparr>
                    else (let st = process_batches batch_size (body fs) files
                          in if writable fs OUTPUT_FILE
                             then \<lparr>exit_code = 0, written = Some st\<rparr>
                             else \<lparr>exit_code = 1, written = None\<rparr>))))"

definition bundleEmojis_part000 :: "fsys \<Rightarrow> outcome" where
  "bundleEmojis_part000 = run_bundler 200 process_part000"

definition bundleEmojis_fixed :: "fsys \<Rightarrow> outcome" where
  "bundleEmojis_fixed = run_bundler 200 process_fixed"

definition bundleSVGEmojis :: "fsys \<Rightarrow> outcome" where
  "bundleSVGEmojis = run_bundler 100 process_utf8"

section \<open>The text a call returns when no exception is thrown\<close>

text \<open>
  The two callbacks without their exception branch, and the two optimizers as the composition
  of their steps on plain strings. The lemmas \<open>ultraOptimizeSVG_text\<close> and
  \<open>optimizeSVG_text\<close> below show that the optimizers return exactly these texts.
\<close>

definition decimal_text :: "string \<Rightarrow> string list \<Rightarrow> string" where
  "decimal_text m caps = fixed_text (parseFloat m) (nat PRECISION)"

definition channel_text :: "string \<Rightarrow> string" where
  "channel_text x = padStart 2 CHR ''0'' (radix_text (parseInt x) 16)"

definition rgb_text :: "string \<Rightarrow> string list \<Rightarrow> string" where
  "rgb_text m caps =
     ''#'' @ channel_text (grp caps 1) @ channel_text (grp caps 2) @ channel_text (grp caps 3)"

definition decimals_text :: "string \<Rightarrow> string" where
  "decimals_text s = replaceAll False rx_decimal decimal_text s"

definition colors_text :: "string \<Rightarrow> string" where
  "colors_text s = replaceAll True rx_hex6 short_hex (replaceAll True rx_rgb rgb_text s)"

definition ultra_text :: "string \<Rightarrow> string" where
  "ultra_text s =
     ultra_step10 (ultra_step9 (ultra_step8 (ultra_step7 (colors_text (ultra_step5
       (decimals_text (ultra_step3 (ultra_step2 (ultra_step1 s)))))))))"

definition optimize_text :: "string \<Rightarrow> string" where
  "optimize_text s =
     opt_step6 (colors_text (opt_step4 (decimals_text (opt_step2 (opt_step1 s)))))"

section \<open>Notions of the specification\<close>





definition payload :: "string \<Rightarrow> string" where
  "payload uri = drop (length data_uri_prefix) uri"

text \<open>A text occurs in a string: at some position the string goes on with it.\<close>

fun occurs :: "string \<Rightarrow> string \<Rightarrow> bool" where
  "occurs w [] \<longleftrightarrow> w = []"
| "occurs w (c # cs) \<longleftrightarrow> prefix w (c # cs) \<or> occurs w cs"

section \<open>Auxiliary notions of the proofs and example environments\<close>

text \<open>What the loop body does to the counters and to the keys, for a body that records a
  file exactly when it can be read.\<close>

definition records_readable :: "fsys \<Rightarrow> (run_state \<Rightarrow> string \<Rightarrow> run_state) \<Rightarrow> bool" where
  "records_readable fs body \<longleftrightarrow>
     (\<forall>st file.
        (readable fs file \<longrightarrow>
           errors (body st file) = errors st \<and> processed (body st file) = processed st + 1 \<and>
           dom (emojiData (body st file)) = dom (emojiData st) \<union> ({key_of file} - {''__proto__''})) \<and>
        (\<not> readable fs file \<longrightarrow>
           errors (body st file) = errors st + 1 \<and> processed (body st file) = processed st \<and>
           emojiData (body st file) = emojiData st))"

definition fs_no_svg :: fsys where
  "fs_no_svg = \<lparr>existsSync = (\<lambda>p. True),
                 readdirSync = (\<lambda>p. Inr [''notes.txt'', ''logo.png'']),
                 readFileSync = (\<lambda>p. Inr ''hello''),
                 writable = (\<lambda>p. True)\<rparr>"

definition fs_one_unreadable :: fsys where
  "fs_one_unreadable =
     \<lparr>existsSync = (\<lambda>p. True),
      readdirSync = (\<lambda>p. Inr [''wave.svg'', ''notes.txt'', ''smile.svg'', ''broken.svg'']),
      readFileSync = (\<lambda>p. if p = ''sprite/broken.svg'' then Inl IOError else Inr ''<svg/>''),
      writable = (\<lambda>p. True)\<rparr>"

definition fs_collision :: fsys where
  "fs_collision =
     \<lparr>existsSync = (\<lambda>p. True),
      readdirSync = (\<lambda>p. Inr [''b.svg'', ''a.SVG.svg'', ''a.SVG'']),
      readFileSync = (\<lambda>p. if p = ''sprite/b.svg'' then Inl IOError else Inr ''<svg/>''),
      writable = (\<lambda>p. True)\<rparr>"

text \<open>
  The encoder of part\_000 and the encoder of svg\_utf8\_bundler.js, character by character:
  what the chain of single-character replacements makes of one character of its input. In
  part\_000 the percent sign is replaced first, so no later escape is touched again; in
  svg\_utf8\_bundler.js it is replaced last, so the percent signs of the earlier escapes
  \<open>%23\<close>, \<open>%0A\<close> and \<open>%0D\<close> are escaped once more.
\<close>

definition enc_char :: "char \<Rightarrow> string" where
  "enc_char c =
     (if c = CHR ''%'' then ''%25''
      else if c = sq then ''%27''
      else if c = CHR ''#'' then ''%23''
      else if c = CHR ''<'' then ''%3C''
      else if c = CHR ''>'' then ''%3E''
      else if is_space c then ''%20''
      else [c])"




fun piece_all :: "(char \<Rightarrow> bool) \<Rightarrow> piece \<Rightarrow> bool" where
  "piece_all Q (Keep c) \<longleftrightarrow> Q c"
| "piece_all Q (Hit m caps) \<longleftrightarrow> (\<forall>c \<in> set m. Q c) \<and> (\<forall>w \<in> set caps. \<forall>c \<in> set w. Q c)"

section \<open>Lemmas on the matcher and on replacement\<close>

lemma concat_map_Nil: "(\<And>x. x \<in> set xs \<Longrightarrow> f x = []) \<Longrightarrow> concat (map f xs) = []"
  by (induction xs) auto

lemma clsm_False [simp]: "clsm False P = P"
  by (auto simp: clsm_def fun_eq_iff)

lemma eqc_False [simp]: "eqc False x c \<longleftrightarrow> x = c"
  by (simp add: eqc_def)

lemma seqs_Nil [simp]: "seqs [] = Eps"
  by (simp add: seqs_def)

lemma seqs_Cons [simp]: "seqs (r # rs) = Seq r (seqs rs)"
  by (simp add: seqs_def)

lemma lit_Nil [simp]: "lit [] = Eps"
  by (simp add: lit_def)

lemma lit_Cons [simp]: "lit (c # w) = Seq (Chr c) (lit w)"
  by (simp add: lit_def)

lemma match_at_Cls:
  "match_at ci (Cls P) s = (case s of [] \<Rightarrow> None | c # cs \<Rightarrow> if clsm ci P c then Some ([], 1) else None)"
  by (simp add: match_at_def split: list.splits)

lemma match_at_Chr:
  "match_at ci (Chr d) s = (case s of [] \<Rightarrow> None | c # cs \<Rightarrow> if eqc ci c d then Some ([], 1) else None)"
  by (simp add: match_at_def split: list.splits)

lemma replaceAll_Cls:
  "replaceAll ci (Cls P) (const_repl w) s = concat (map (\<lambda>c. if clsm ci P c then w else [c]) s)"
  by (induction s) (simp_all add: replaceAll_def match_at_Cls const_repl_def)

lemma replaceAll_Chr:
  "replaceAll ci (Chr d) (const_repl w) s = concat (map (\<lambda>c. if eqc ci c d then w else [c]) s)"
  by (induction s) (simp_all add: replaceAll_def match_at_Chr const_repl_def)

lemma run_Rep_then:
  "run ci (Seq (Rep lo None P) r) (caps, s) =
     concat (map (\<lambda>k. run ci r (caps, drop k s)) (rev [lo ..< Suc (length (takeWhile (clsm ci P) s))]))"
  by (simp add: comp_def del: upt_Suc)

lemma run_Eos_Eps: "run ci (Seq Eos Eps) (caps, u) = (if u = [] then [(caps, [])] else [])"
  by simp

lemma greedy_then_eos:
  assumes "n \<le> length t"
  shows "concat (map (\<lambda>k. if drop k t = [] then [(caps, [])] else []) (rev [lo ..< Suc n]))
         = (if lo \<le> n \<and> n = length t then [(caps, [] :: string)] else [])"
proof (cases "lo \<le> n \<and> n = length t")
  case True
  then have "rev [lo ..< Suc n] = n # rev [lo ..< n]" by simp
  moreover have "concat (map (\<lambda>k. if drop k t = [] then [(caps, [])] else []) (rev [lo ..< n])) = []"
    using True by (intro concat_map_Nil) auto
  ultimately show ?thesis using True by simp
next
  case False
  have "concat (map (\<lambda>k. if drop k t = [] then [(caps, [])] else []) (rev [lo ..< Suc n])) = []"
    using False assms by (intro concat_map_Nil) auto
  then show ?thesis using False by simp
qed

lemma takeWhile_all_iff: "length (takeWhile P t) = length t \<longleftrightarrow> (\<forall>c \<in> set t. P c)"
  by (metis takeWhile_eq_all_conv takeWhile_eq_take take_all_iff order_refl)

lemma match_at_extension:
  "match_at False rx_extension s =
     (if \<exists>t. s = CHR ''.'' # t \<and> t \<noteq> [] \<and> (\<forall>c \<in> set t. not_slash_dot c)
      then Some ([], length s) else None)"
proof (cases s)
  case Nil
  then show ?thesis by (simp add: match_at_def rx_extension_def)
next
  case (Cons x t)
  show ?thesis
  proof (cases "x = CHR ''.''")
    case False
    then show ?thesis using Cons by (simp add: match_at_def rx_extension_def)
  next
    case True
    let ?n = "length (takeWhile not_slash_dot t)"
    have n: "?n \<le> length t" by (rule length_takeWhile_le)
    have "run False rx_extension ([], s) = run False (Seq (Rep 1 None not_slash_dot) (Seq Eos Eps)) ([], t)"
      using True Cons by (simp add: rx_extension_def)
    also have "\<dots> = (if 1 \<le> ?n \<and> ?n = length t then [([], [])] else [])"
      unfolding run_Rep_then run_Eos_Eps clsm_False by (rule greedy_then_eos [OF n])
    finally have run: "run False rx_extension ([], s) = (if 1 \<le> ?n \<and> ?n = length t then [([], [])] else [])" .
    have "1 \<le> ?n \<and> ?n = length t \<longleftrightarrow> t \<noteq> [] \<and> (\<forall>c \<in> set t. not_slash_dot c)"
      using takeWhile_all_iff [of not_slash_dot t] by (cases t) auto
    then show ?thesis
      unfolding match_at_def run using Cons True by simp
  qed
qed

lemma replaceFirst_extension:
  assumes "t \<noteq> []" and "\<forall>c \<in> set t. not_slash_dot c"
  shows "replaceFirst False rx_extension (const_repl []) (base @ CHR ''.'' # t) = base"
proof (induction base)
  case Nil
  show ?case using assms by (simp add: match_at_extension const_repl_def)
next
  case (Cons c base)
  have "match_at False rx_extension (c # base @ CHR ''.'' # t) = None"
    by (auto simp: match_at_extension not_slash_dot_def)
  then show ?case using Cons by simp
qed

lemma lower_char_dot: "toLowerCase_char x = CHR ''.'' \<Longrightarrow> x = CHR ''.''"
  unfolding toLowerCase_char_def
  by (auto split: if_splits simp: less_eq_char_def char_of_eq_iff take_bit_eq_mod)

lemma lower_char_svg:
  "toLowerCase_char x \<in> {CHR ''s'', CHR ''v'', CHR ''g''} \<Longrightarrow> not_slash_dot x"
  unfolding toLowerCase_char_def not_slash_dot_def
  by (auto split: if_splits simp: less_eq_char_def char_of_eq_iff take_bit_eq_mod)

lemma is_svg_name_split:
  assumes "is_svg_name name"
  obtains base a b c where "name = base @ [CHR ''.'', a, b, c]"
    and "not_slash_dot a" "not_slash_dot b" "not_slash_dot c"
proof -
  from assms have len: "4 \<le> length name"
    and d: "drop (length name - 4) (map toLowerCase_char name) = ''.svg''"
    by (simp_all add: is_svg_name_def endsWith_def toLowerCase_def eval_nat_numeral)
  define base where "base = take (length name - 4) name"
  define ext where "ext = drop (length name - 4) name"
  have name: "name = base @ ext" by (simp add: base_def ext_def)
  have "length ext = 4" using len by (simp add: ext_def)
  then obtain x a b c where ext: "ext = [x, a, b, c]"
    by (auto simp: length_Suc_conv numeral_eq_Suc)
  have "map toLowerCase_char ext = ''.svg''"
    using d by (simp add: ext_def drop_map)
  then have "toLowerCase_char x = CHR ''.''" "toLowerCase_char a = CHR ''s''"
    "toLowerCase_char b = CHR ''v''" "toLowerCase_char c = CHR ''g''"
    by (simp_all add: ext)
  then have "x = CHR ''.''" "not_slash_dot a" "not_slash_dot b" "not_slash_dot c"
    by (auto intro: lower_char_dot lower_char_svg)
  then show thesis using that name ext by simp
qed

lemma substE_Inr:
  assumes "\<And>m caps. f m caps = Inr (g m caps)"
  shows "substE f ps = Inr (concat (map (subst g) ps))"
proof (induction ps)
  case Nil
  show ?case by simp
next
  case (Cons p ps)
  then show ?case by (cases p) (simp_all add: assms)
qed

lemma replaceAllE_Inr:
  assumes "\<And>m caps. f m caps = Inr (g m caps)"
  shows "replaceAllE ci r f s = Inr (replaceAll ci r g s)"
  by (simp add: replaceAllE_def replaceAll_def substE_Inr [OF assms])

lemma bindE_Inr [simp]: "bindE (Inr v) f = f v"
  by (simp add: bindE_def)

lemma bindE_Inl [simp]: "bindE (Inl e) f = Inl e"
  by (simp add: bindE_def)

lemma round_decimal_text: "round_decimal m caps = Inr (decimal_text m caps)"
  by (simp add: round_decimal_def decimal_text_def toFixed_def PRECISION_def)

lemma hex_channel_text: "hex_channel x = Inr (channel_text x)"
  by (simp add: hex_channel_def channel_text_def toString_radix_def)

lemma rgb_to_hex_text: "rgb_to_hex m caps = Inr (rgb_text m caps)"
  by (simp add: rgb_to_hex_def rgb_text_def hex_channel_text)

lemma ultra_step4_text: "ultra_step4 s = Inr (decimals_text s)"
  unfolding ultra_step4_def decimals_text_def by (rule replaceAllE_Inr) (rule round_decimal_text)

lemma ultra_step6_text: "ultra_step6 s = Inr (colors_text s)"
  unfolding ultra_step6_def colors_text_def
  by (simp add: replaceAllE_Inr [of rgb_to_hex rgb_text, OF rgb_to_hex_text])

lemma opt_step3_text: "opt_step3 s = Inr (decimals_text s)"
  unfolding opt_step3_def decimals_text_def by (rule replaceAllE_Inr) (rule round_decimal_text)

lemma opt_step5_text: "opt_step5 s = Inr (colors_text s)"
  unfolding opt_step5_def colors_text_def
  by (simp add: replaceAllE_Inr [of rgb_to_hex rgb_text, OF rgb_to_hex_text])

lemma ultraOptimizeSVG_text: "ultraOptimizeSVG s = Inr (ultra_text s)"
  by (simp add: ultraOptimizeSVG_def ultra_text_def ultra_step4_text ultra_step6_text)

lemma optimizeSVG_text: "optimizeSVG s = Inr (optimize_text s)"
  by (simp add: optimizeSVG_def optimize_text_def opt_step3_text opt_step5_text)

lemma svgToDataUri_part000_text:
  "svgToDataUri_part000 s = Inr (data_uri_prefix @ encode_part000 (ultra_text s))"
  by (simp add: svgToDataUri_part000_def ultraOptimizeSVG_text)

lemma svgToDataUri_fixed_text:
  "svgToDataUri_fixed s = Inr (data_uri_prefix @ encodeURIComponent (optimize_text s))"
  by (simp add: svgToDataUri_fixed_def optimizeSVG_text)

section \<open>Lemmas on the bundlers\<close>

lemma slices_count_pos: "0 < (n::nat) \<Longrightarrow> 0 < len \<Longrightarrow> 0 < (len + n - 1) div n"
  by (simp add: div_greater_zero_iff)

lemma slices_count_drop:
  assumes "0 < (n::nat)" "0 < len"
  shows "(len - n + n - 1) div n = (len + n - 1) div n - 1"
proof (cases "n \<le> len")
  case True
  then obtain d where d: "len = d + n" by (metis le_add_diff_inverse2)
  have e: "d + n + n - 1 = (d + n - 1) + n" using assms by arith
  have "(d + n + n - 1) div n = (d + n - 1) div n + 1"
    unfolding e using assms by (metis div_add_self2 less_numeral_extra(3))
  then show ?thesis by (simp add: d)
next
  case False
  then have "n \<le> len + n - 1" "len + n - 1 < 2 * n" using assms by auto
  then have "(len + n - 1) div n = 1"
    using assms by (intro div_nat_eqI) auto
  then show ?thesis using False assms by simp
qed

lemma upt_Cons_Suc: "0 < k \<Longrightarrow> [0 ..< k] = 0 # map Suc [0 ..< k - 1]"
  by (cases k) (simp_all add: map_Suc_upt upt_conv_Cons del: upt_Suc)

lemma slices_step:
  assumes "0 < n" "xs \<noteq> []"
  shows "slices n xs = take n xs # slices n (drop n xs)"
proof -
  let ?k = "(length xs + n - 1) div n"
  have kpos: "0 < ?k" using assms slices_count_pos [of n "length xs"] by simp
  have len: "(length (drop n xs) + n - 1) div n = ?k - 1"
    using slices_count_drop [of n "length xs"] assms by simp
  have "slices n xs = map (\<lambda>i. take n (drop (i * n) xs)) (0 # map Suc [0 ..< ?k - 1])"
    unfolding slices_def using upt_Cons_Suc [OF kpos] by simp
  also have "\<dots> = take n xs # map (\<lambda>i. take n (drop (i * n) (drop n xs))) [0 ..< ?k - 1]"
    by (simp add: comp_def add.commute)
  also have "\<dots> = take n xs # slices n (drop n xs)"
    unfolding slices_def len ..
  finally show ?thesis .
qed


lemma concat_slices:
  assumes "0 < n"
  shows "concat (slices n xs) = xs"
proof (induction xs rule: length_induct)
  case (1 xs)
  show ?case
  proof (cases "xs = []")
    case True
    then show ?thesis by (simp add: slices_def)
  next
    case False
    have "length (drop n xs) < length xs" using False assms by simp
    then have "concat (slices n (drop n xs)) = drop n xs" using 1 by blast
    then show ?thesis using slices_step [OF assms False] by simp
  qed
qed

lemma foldl_concat: "foldl (\<lambda>st b. foldl f st b) st bs = foldl f st (concat bs)"
  by (induction bs arbitrary: st) simp_all

lemma process_batches_foldl:
  "0 < n \<Longrightarrow> process_batches n body files = foldl body init_state files"
  by (simp add: process_batches_def foldl_concat concat_slices)

lemma dom_obj_set: "dom (obj_set obj k v) = dom obj \<union> ({k} - {''__proto__''})"
  by (auto simp: obj_set_def)

lemma records_fixed: "records_readable fs (process_fixed fs)"
  by (auto simp: records_readable_def process_fixed_def readable_def svgToDataUri_fixed_text
      dom_obj_set split: sum.splits)

lemma records_part000: "records_readable fs (process_part000 fs)"
  by (auto simp: records_readable_def process_part000_def readable_def svgToDataUri_part000_text
      dom_obj_set split: sum.splits)

lemma records_utf8: "records_readable fs (process_utf8 fs)"
  by (auto simp: records_readable_def process_utf8_def readable_def dom_obj_set Let_def
      split: sum.splits)

lemma foldl_records:
  assumes "records_readable fs body"
  shows "errors (foldl body st files) = errors st + length (filter (\<lambda>f. \<not> readable fs f) files)
       \<and> processed (foldl body st files) = processed st + length (filter (readable fs) files)
       \<and> dom (emojiData (foldl body st files))
           = dom (emojiData st) \<union> (key_of ` {f \<in> set files. readable fs f} - {''__proto__''})"
proof (induction files arbitrary: st)
  case Nil
  show ?case by simp
next
  case (Cons f files)
  show ?case
  proof (cases "readable fs f")
    case True
    with assms have "errors (body st f) = errors st" "processed (body st f) = processed st + 1"
      "dom (emojiData (body st f)) = dom (emojiData st) \<union> ({key_of f} - {''__proto__''})"
      by (simp_all add: records_readable_def)
    then show ?thesis using Cons [of "body st f"] True by auto
  next
    case False
    with assms have "errors (body st f) = errors st + 1" "processed (body st f) = processed st"
      "emojiData (body st f) = emojiData st"
      by (simp_all add: records_readable_def)
    then show ?thesis using Cons [of "body st f"] False by auto
  qed
qed

lemma run_bundler_completes:
  assumes "0 < n" and "records_readable fs (body fs)"
    and "existsSync fs SPRITE_DIR" and "readdirSync fs SPRITE_DIR = Inr entries"
    and "sort (filter is_svg_name entries) = files" and "files \<noteq> []"
    and "writable fs OUTPUT_FILE"
  shows "\<exists>st. run_bundler n body fs = \<lparr>exit_code = 0, written = Some st\<rparr>
       \<and> errors st = length (filter (\<lambda>f. \<not> readable fs f) files)
       \<and> processed st = length (filter (readable fs) files)
       \<and> dom (emojiData st) = key_of ` {f \<in> set files. readable fs f} - {''__proto__''}"
proof -
  let ?st = "foldl (body fs) init_state files"
  have "run_bundler n body fs = \<lparr>exit_code = 0, written = Some ?st\<rparr>"
    using assms by (simp add: run_bundler_def process_batches_foldl Let_def)
  moreover have "errors ?st = length (filter (\<lambda>f. \<not> readable fs f) files)
       \<and> processed ?st = length (filter (readable fs) files)
       \<and> dom (emojiData ?st) = key_of ` {f \<in> set files. readable fs f} - {''__proto__''}"
    using foldl_records [OF assms(2), of init_state files] by (simp add: init_state_def)
  ultimately show ?thesis by blast
qed

lemma run_bundler_no_files:
  assumes "readdirSync fs SPRITE_DIR = Inr entries" and "filter is_svg_name entries = []"
  shows "run_bundler n body fs = \<lparr>exit_code = 1, written = None\<rparr>"
  using assms by (simp add: run_bundler_def)

lemma svg_slash_text: "svgToDataUri_fixed ''<svg/>'' = Inr ''data:image/svg+xml;charset=utf-8,%3Csvg%2F%3E''"
  by code_simp

lemma sort_one_unreadable:
  "sort (filter is_svg_name [''wave.svg'', ''notes.txt'', ''smile.svg'', ''broken.svg''])
     = [''broken.svg'', ''smile.svg'', ''wave.svg'']"
  by code_simp

lemma sort_collision:
  "sort (filter is_svg_name [''b.svg'', ''a.SVG.svg'', ''a.SVG'']) = [''a.SVG'', ''a.SVG.svg'', ''b.svg'']"
  by code_simp

lemma key_of_examples:
  "key_of ''broken.svg'' = ''broken''" "key_of ''smile.svg'' = ''smile''" "key_of ''wave.svg'' = ''wave''"
  "key_of ''a.SVG'' = ''a.SVG''" "key_of ''a.SVG.svg'' = ''a.SVG''" "key_of ''b.svg'' = ''b''"
  by code_simp+

section \<open>Lemmas on the characters of a result\<close>

lemma run_pres:
  assumes "(caps', s') \<in> set (run ci r (caps, s))"
    and "\<forall>c \<in> set s. Q c" and "\<forall>w \<in> set caps. \<forall>c \<in> set w. Q c"
  shows "(\<forall>c \<in> set s'. Q c) \<and> (\<forall>w \<in> set caps'. \<forall>c \<in> set w. Q c)"
  using assms
proof (induction r arbitrary: caps s caps' s')
  case (Seq a b)
  from Seq.prems(1) obtain caps1 s1 where 1: "(caps1, s1) \<in> set (run ci a (caps, s))"
    and 2: "(caps', s') \<in> set (run ci b (caps1, s1))"
    by auto
  from Seq.IH(1) [OF 1 Seq.prems(2,3)] Seq.IH(2) [OF 2] show ?case by blast
next
  case (Grp r)
  from Grp.prems(1) obtain caps1 where 1: "(caps1, s') \<in> set (run ci r (caps, s))"
    and c: "caps' = caps1 @ [take (length s - length s') s]"
    by auto
  from Grp.IH [OF 1 Grp.prems(2,3)] have "(\<forall>c \<in> set s'. Q c) \<and> (\<forall>w \<in> set caps1. \<forall>c \<in> set w. Q c)" .
  moreover have "\<forall>c \<in> set (take (length s - length s') s). Q c"
    using Grp.prems(2) by (meson in_set_takeD)
  ultimately show ?case by (auto simp: c)
next
  case (Rep lo hi P)
  then show ?case by (auto simp: Let_def dest: in_set_dropD)
next
  case (Lazy P)
  then show ?case by (auto dest: in_set_dropD)
next
  case (Bref k)
  then show ?case by (auto simp: Let_def split: if_splits dest: in_set_dropD)
qed (auto split: list.splits if_splits)

lemma match_at_pres:
  assumes "match_at ci r s = Some (caps, n)" and "\<forall>c \<in> set s. Q c"
  shows "\<forall>w \<in> set caps. \<forall>c \<in> set w. Q c"
proof -
  from assms(1) obtain rest more where "run ci r ([], s) = (caps, rest) # more"
    by (auto simp: match_at_def split: list.splits)
  then have "(caps, rest) \<in> set (run ci r ([], s))" by simp
  from run_pres [OF this assms(2)] show ?thesis by simp
qed

lemma scan_pres:
  assumes "\<forall>c \<in> set s. Q c"
  shows "\<forall>p \<in> set (scan ci r s). piece_all Q p"
  using assms
proof (induction ci r s rule: scan.induct)
  case (1 ci r)
  show ?case
  proof (cases "match_at ci r []")
    case None
    then show ?thesis by simp
  next
    case (Some a)
    obtain caps n where a: "a = (caps, n)" by (cases a)
    have "\<forall>w \<in> set caps. \<forall>c \<in> set w. Q c"
      using match_at_pres [OF Some [unfolded a], of Q] by simp
    then show ?thesis using Some a by simp
  qed
next
  case (2 ci r c cs)
  show ?case
  proof (cases "match_at ci r (c # cs)")
    case None
    then show ?thesis using 2 by simp
  next
    case (Some a)
    obtain caps n where a: "a = (caps, n)" by (cases a)
    have caps: "\<forall>w \<in> set caps. \<forall>c \<in> set w. Q c"
      using match_at_pres [OF Some [unfolded a] "2.prems"] .
    have m: "\<forall>x \<in> set (take n (c # cs)). Q x"
      using "2.prems" by (meson in_set_takeD)
    show ?thesis
    proof (cases "n = 0")
      case True
      then show ?thesis using 2 Some a caps m by simp
    next
      case False
      have "\<forall>x \<in> set (drop (n - 1) cs). Q x" using "2.prems" by (auto dest: in_set_dropD)
      then show ?thesis using "2.IH"(3) [OF Some [unfolded a] refl False] Some a caps m False
        by simp
    qed
  qed
qed

lemma replaceAll_pres:
  assumes "\<forall>c \<in> set s. Q c"
    and "\<And>m caps. (\<forall>c \<in> set m. Q c) \<Longrightarrow> (\<forall>w \<in> set caps. \<forall>c \<in> set w. Q c) \<Longrightarrow> \<forall>c \<in> set (f m caps). Q c"
  shows "\<forall>c \<in> set (replaceAll ci r f s). Q c"
proof -
  have "\<forall>c \<in> set (subst f p). Q c" if "piece_all Q p" for p
    using that assms(2) by (cases p) auto
  then show ?thesis using scan_pres [OF assms(1), of ci r] by (auto simp: replaceAll_def)
qed

lemma replaceAll_const_pres:
  assumes "\<forall>c \<in> set s. Q c" and "\<forall>c \<in> set w. Q c"
  shows "\<forall>c \<in> set (replaceAll ci r (const_repl w) s). Q c"
  using assms by (intro replaceAll_pres) (auto simp: const_repl_def)

lemma trim_pres: "\<forall>c \<in> set s. Q c \<Longrightarrow> \<forall>c \<in> set (trim s). Q c"
proof
  fix c assume a: "\<forall>c \<in> set s. Q c" and "c \<in> set (trim s)"
  then have "c \<in> set (dropWhile is_space (rev (dropWhile is_space s)))" by (simp add: trim_def)
  then have "c \<in> set (dropWhile is_space s)" using set_dropWhileD by fastforce
  then have "c \<in> set s" by (rule set_dropWhileD)
  then show "Q c" using a by blast
qed

section \<open>Lemmas on encoding and decoding\<close>





lemma concat_map_concat_map:
  "concat (map g (concat (map h s))) = concat (map (\<lambda>c. concat (map g (h c))) s)"
  by (induction s) simp_all

lemma encode_part000_concat: "encode_part000 t = concat (map enc_char t)"
proof -
  have "encode_part000 t = concat (map (\<lambda>c.
      concat (map (\<lambda>c. if is_space c then ''%20'' else [c])
        (concat (map (\<lambda>c. if c = CHR ''>'' then ''%3E'' else [c])
          (concat (map (\<lambda>c. if c = CHR ''<'' then ''%3C'' else [c])
            (concat (map (\<lambda>c. if c = CHR ''#'' then ''%23'' else [c])
              (concat (map (\<lambda>c. if c = sq then ''%27'' else [c])
                (if c = CHR ''%'' then ''%25'' else [c]))))))))))) t)"
    by (simp add: encode_part000_def replaceAll_Chr replaceAll_Cls concat_map_concat_map)
  also have "\<dots> = concat (map enc_char t)"
    by (rule arg_cong [where f = concat], rule map_cong [OF refl])
      (simp add: enc_char_def sq_def is_space_def)
  finally show ?thesis .
qed















declare radix_digits.simps [simp del] bitlen.simps [simp del]








lemma ultra_tail_pres:
  assumes "\<forall>c \<in> set s. Q c"
  shows "\<forall>c \<in> set (ultra_step10 (ultra_step9 s)). Q c"
proof -
  have "\<forall>c \<in> set (replaceAll False rx_empty_group (const_repl [])
          (replaceAll False rx_translate0 (const_repl [])
            (replaceAll False rx_version (const_repl []) (trim s)))). Q c"
    by (intro replaceAll_const_pres trim_pres assms) simp_all
  moreover have "\<forall>c \<in> set (trim s). Q c" by (intro trim_pres assms)
  ultimately show ?thesis by (simp add: ultra_step10_def ultra_step9_def)
qed

lemma ultra_step8_no_dq: "dq \<notin> set (ultra_step8 s)"
  by (auto simp: ultra_step8_def replaceAll_Chr sq_def dq_def)

lemma ultra_text_no_dq: "dq \<notin> set (ultra_text s)"
proof -
  have "\<forall>c \<in> set (ultra_step8 t). c \<noteq> dq" for t using ultra_step8_no_dq by blast
  from ultra_tail_pres [OF this] show ?thesis unfolding ultra_text_def by blast
qed



lemma enc_char_cases:
  "enc_char c \<in> {''%25'', ''%27'', ''%23'', ''%3C'', ''%3E'', ''%20''}
   \<or> (enc_char c = [c] \<and> \<not> is_space c \<and> c \<notin> {CHR ''%'', sq, CHR ''#'', CHR ''<'', CHR ''>''})"
  by (simp add: enc_char_def)

lemma escape_chars_safe:
  assumes "w \<in> {''%25'', ''%27'', ''%23'', ''%3C'', ''%3E'', ''%20''}" and "x \<in> set w"
  shows "\<not> is_space x \<and> x \<notin> {CHR ''<'', CHR ''>'', CHR ''#'', sq, dq}"
proof -
  from assms have "x \<in> set ''%2573CE0''" by auto
  then show ?thesis by (auto simp: is_space_def sq_def dq_def)
qed

lemma enc_char_safe:
  assumes "x \<in> set (enc_char c)" and "c \<noteq> dq"
  shows "\<not> is_space x \<and> x \<notin> {CHR ''<'', CHR ''>'', CHR ''#'', sq, dq}"
  using enc_char_cases [of c]
proof
  assume "enc_char c \<in> {''%25'', ''%27'', ''%23'', ''%3C'', ''%3E'', ''%20''}"
  then show ?thesis using assms(1) by (rule escape_chars_safe)
next
  assume "enc_char c = [c] \<and> \<not> is_space c \<and> c \<notin> {CHR ''%'', sq, CHR ''#'', CHR ''<'', CHR ''>''}"
  then show ?thesis using assms by auto
qed





lemma part000_example:
  \<open>svgToDataUri_part000 ''<a b="#">%</a >''
     = Inr (data_uri_prefix @ ''%3Cab=%27%23%27%3E%25%3C/a%3E'')\<close>
  by code_simp


section \<open>The claims\<close>




text \<open>
  C10. For every input string, \<open>svgToDataUri\<close> of part\_000 returns a string that begins with
  \<open>data:image/svg+xml;charset=utf-8,\<close>, and the payload after that prefix holds no white space and none of
  the characters \<open><\<close>, \<open>>\<close>, \<open>#\<close>, \<open>'\<close> and \<open>"\<close>.
\<close>

theorem payload_has_no_unsafe_character:
  "\<exists>u. svgToDataUri_part000 s = Inr u \<and> take (length data_uri_prefix) u = data_uri_prefix
     \<and> (\<forall>c \<in> set (payload u). \<not> is_space c \<and> c \<notin> {CHR ''<'', CHR ''>'', CHR ''#'', sq, dq})"
proof -
  let ?u = "data_uri_prefix @ encode_part000 (ultra_text s)"
  have "\<not> is_space c \<and> c \<notin> {CHR ''<'', CHR ''>'', CHR ''#'', sq, dq}"
    if "c \<in> set (encode_part000 (ultra_text s))" for c
  proof -
    from that obtain x where x: "x \<in> set (ultra_text s)" and c: "c \<in> set (enc_char x)"
      by (auto simp: encode_part000_concat)
    from x have "x \<noteq> dq" using ultra_text_no_dq by blast
    with c show ?thesis by (rule enc_char_safe)
  qed
  then show ?thesis by (simp add: svgToDataUri_part000_text payload_def)
qed

text \<open>Witness for C10: a tag with a quoted \<open>#\<close>, a percent sign and a closing tag.\<close>

theorem payload_has_no_unsafe_character_witness:
  \<open>\<exists>u. svgToDataUri_part000 ''<a b="#">%</a >'' = Inr u
     \<and> payload u = ''%3Cab=%27%23%27%3E%25%3C/a%3E''
     \<and> (\<forall>c \<in> set (payload u). \<not> is_space c \<and> c \<notin> {CHR ''<'', CHR ''>'', CHR ''#'', sq, dq})\<close>
  using payload_has_no_unsafe_character [of \<open>''<a b="#">%</a >''\<close>]
  by (auto simp: part000_example payload_def)

text \<open>
  C6. The optimizers are total and throw nothing: for every input string, well formed or not,
  \<open>ultraOptimizeSVG\<close> and \<open>optimizeSVG\<close> return a string. The only calls that can throw are
  \<open>toFixed\<close> and \<open>toString\<close> in the two callbacks, with the digit count 2 and the radix 16,
  which are in range. Each optimizer is a function of its argument alone: it reads no file and
  no state, so equal inputs give equal outputs.
\<close>

theorem optimizers_total:
  "(\<exists>t. ultraOptimizeSVG s = Inr t) \<and> (\<exists>t. optimizeSVG s = Inr t)"
  by (simp add: ultraOptimizeSVG_text optimizeSVG_text)

text \<open>
  C7. When the directory lists no entry whose lower-cased name ends in \<open>.svg\<close>, each bundler
  ends with exit status 1 and writes no output file.
\<close>

theorem no_svg_files_exit_1:
  assumes "readdirSync fs SPRITE_DIR = Inr entries" and "filter is_svg_name entries = []"
  shows "exit_code (bundleEmojis_fixed fs) = 1 \<and> written (bundleEmojis_fixed fs) = None
       \<and> exit_code (bundleSVGEmojis fs) = 1 \<and> written (bundleSVGEmojis fs) = None
       \<and> exit_code (bundleEmojis_part000 fs) = 1 \<and> written (bundleEmojis_part000 fs) = None"
  using assms
  by (simp add: bundleEmojis_fixed_def bundleSVGEmojis_def bundleEmojis_part000_def
      run_bundler_no_files)

text \<open>Witness for C7: a directory with a text file and a PNG file.\<close>

theorem no_svg_files_exit_1_witness:
  "readdirSync fs_no_svg SPRITE_DIR = Inr [''notes.txt'', ''logo.png'']
   \<and> filter is_svg_name [''notes.txt'', ''logo.png''] = []
   \<and> exit_code (bundleEmojis_fixed fs_no_svg) = 1 \<and> written (bundleEmojis_fixed fs_no_svg) = None
   \<and> exit_code (bundleSVGEmojis fs_no_svg) = 1 \<and> written (bundleSVGEmojis fs_no_svg) = None"
proof -
  have h1: "readdirSync fs_no_svg SPRITE_DIR = Inr [''notes.txt'', ''logo.png'']"
    by (simp add: fs_no_svg_def)
  have h2: "filter is_svg_name [''notes.txt'', ''logo.png''] = []"
    by code_simp
  show ?thesis using h1 h2 no_svg_files_exit_1 [OF h1 h2] by simp
qed

text \<open>
  Per-file error recovery, on every run that reaches the loop. When the directory exists, lists
  at least one \<open>.svg\<close> file and the output file can be written, each bundler ends with exit
  status 0 and writes the bundle; the error counter is the number of files that could not be
  read, the processed counter is the number of files that could, and the keys of the bundle are
  the keys derived from the files that could be read (the key \<open>__proto__\<close> apart).
\<close>

theorem per_file_errors_counted:
  assumes "existsSync fs SPRITE_DIR" and "readdirSync fs SPRITE_DIR = Inr entries"
    and "sort (filter is_svg_name entries) = files" and "files \<noteq> []"
    and "writable fs OUTPUT_FILE"
    and "b \<in> {bundleEmojis_fixed, bundleSVGEmojis, bundleEmojis_part000}"
  shows "\<exists>st. b fs = \<lparr>exit_code = 0, written = Some st\<rparr>
       \<and> errors st = length (filter (\<lambda>f. \<not> readable fs f) files)
       \<and> processed st = length (filter (readable fs) files)
       \<and> dom (emojiData st) = key_of ` {f \<in> set files. readable fs f} - {''__proto__''}
       \<and> (distinct entries \<and> inj_on key_of {f \<in> set files. readable fs f}
            \<and> ''__proto__'' \<notin> key_of ` {f \<in> set files. readable fs f}
          \<longrightarrow> card (dom (emojiData st)) = processed st)"
proof -
  have "\<exists>st. b fs = \<lparr>exit_code = 0, written = Some st\<rparr>
       \<and> errors st = length (filter (\<lambda>f. \<not> readable fs f) files)
       \<and> processed st = length (filter (readable fs) files)
       \<and> dom (emojiData st) = key_of ` {f \<in> set files. readable fs f} - {''__proto__''}"
  proof -
    from assms(6) consider "b = bundleEmojis_fixed" | "b = bundleSVGEmojis" | "b = bundleEmojis_part000"
      by auto
    then show ?thesis
    proof cases
      case 1
      show ?thesis unfolding 1 bundleEmojis_fixed_def
        by (rule run_bundler_completes [where body = process_fixed, OF _ records_fixed assms(1-5)]) simp
    next
      case 2
      show ?thesis unfolding 2 bundleSVGEmojis_def
        by (rule run_bundler_completes [where body = process_utf8, OF _ records_utf8 assms(1-5)]) simp
    next
      case 3
      show ?thesis unfolding 3 bundleEmojis_part000_def
        by (rule run_bundler_completes [where body = process_part000, OF _ records_part000 assms(1-5)]) simp
    qed
  qed
  then obtain st where st: "b fs = \<lparr>exit_code = 0, written = Some st\<rparr>"
    "errors st = length (filter (\<lambda>f. \<not> readable fs f) files)"
    "processed st = length (filter (readable fs) files)"
    "dom (emojiData st) = key_of ` {f \<in> set files. readable fs f} - {''__proto__''}"
    by blast
  have "card (dom (emojiData st)) = processed st"
    if d: "distinct entries" and i: "inj_on key_of {f \<in> set files. readable fs f}"
      and p: "''__proto__'' \<notin> key_of ` {f \<in> set files. readable fs f}"
  proof -
    have "distinct files" using d assms(3) by auto
    then have "distinct (filter (readable fs) files)" by simp
    then have "length (filter (readable fs) files) = card {f \<in> set files. readable fs f}"
      using distinct_card [of "filter (readable fs) files"] by simp
    moreover have "card (key_of ` {f \<in> set files. readable fs f}) = card {f \<in> set files. readable fs f}"
      using i by (rule card_image)
    ultimately show ?thesis using p st by simp
  qed
  then show ?thesis using st by blast
qed

text \<open>An instance: three \<open>.svg\<close> files, one of them unreadable.\<close>

theorem per_file_errors_counted_witness:
  "existsSync fs_one_unreadable SPRITE_DIR
   \<and> readdirSync fs_one_unreadable SPRITE_DIR = Inr [''wave.svg'', ''notes.txt'', ''smile.svg'', ''broken.svg'']
   \<and> writable fs_one_unreadable OUTPUT_FILE
   \<and> exit_code (bundleEmojis_fixed fs_one_unreadable) = 0
   \<and> map_option errors (written (bundleEmojis_fixed fs_one_unreadable)) = Some 1
   \<and> map_option processed (written (bundleEmojis_fixed fs_one_unreadable)) = Some 2
   \<and> map_option (\<lambda>st. dom (emojiData st)) (written (bundleEmojis_fixed fs_one_unreadable))
        = Some {''smile'', ''wave''}"
proof -
  let ?fs = fs_one_unreadable
  have h1: "existsSync ?fs SPRITE_DIR" and h5: "writable ?fs OUTPUT_FILE"
    and h2: "readdirSync ?fs SPRITE_DIR = Inr [''wave.svg'', ''notes.txt'', ''smile.svg'', ''broken.svg'']"
    by (simp_all add: fs_one_unreadable_def)
  have h4: "[''broken.svg'', ''smile.svg'', ''wave.svg''] \<noteq> []" by simp
  have h6: "bundleEmojis_fixed \<in> {bundleEmojis_fixed, bundleSVGEmojis, bundleEmojis_part000}" by simp
  have r: "\<not> readable ?fs ''broken.svg''" "readable ?fs ''smile.svg''" "readable ?fs ''wave.svg''"
    by (simp_all add: readable_def fs_one_unreadable_def path_join_def SPRITE_DIR_def)
  from per_file_errors_counted [OF h1 h2 sort_one_unreadable h4 h5 h6]
  obtain st where "bundleEmojis_fixed ?fs = \<lparr>exit_code = 0, written = Some st\<rparr>"
    "errors st = length (filter (\<lambda>f. \<not> readable ?fs f) [''broken.svg'', ''smile.svg'', ''wave.svg''])"
    "processed st = length (filter (readable ?fs) [''broken.svg'', ''smile.svg'', ''wave.svg''])"
    "dom (emojiData st) = key_of ` {f \<in> set [''broken.svg'', ''smile.svg'', ''wave.svg'']. readable ?fs f} - {''__proto__''}"
    by blast
  moreover have "{f \<in> set [''broken.svg'', ''smile.svg'', ''wave.svg'']. readable ?fs f} = {''smile.svg'', ''wave.svg''}"
    using r by auto
  ultimately show ?thesis using h1 h2 h5 r by (simp add: key_of_examples)
qed

text \<open>
  C8. The claim (the failure of a file is caught and counted, the run goes on and exits with
  status zero, and the bundle holds exactly one key per successfully processed file) fails on
  the code at this run: \<open>a.SVG\<close> and \<open>a.SVG.svg\<close> are read and counted, \<open>b.svg\<close> cannot be
  read and is counted as an error, the run exits with status 0, and the bundle holds one key
  for the two processed files. The filter accepts \<open>a.SVG\<close> (it lower-cases the name), but
  \<open>path.basename(file, '.svg')\<close> compares the suffix as it is written, so \<open>a.SVG\<close> keeps
  its extension, against the comment "Use filename without extension as key", and meets the
  key of \<open>a.SVG.svg\<close>.
\<close>

theorem colliding_keys_share_one_key:
  "key_of ''a.SVG'' = ''a.SVG'' \<and> key_of ''a.SVG.svg'' = ''a.SVG''
   \<and> exit_code (bundleEmojis_fixed fs_collision) = 0
   \<and> map_option errors (written (bundleEmojis_fixed fs_collision)) = Some 1
   \<and> map_option processed (written (bundleEmojis_fixed fs_collision)) = Some 2
   \<and> map_option (\<lambda>st. dom (emojiData st)) (written (bundleEmojis_fixed fs_collision)) = Some {''a.SVG''}"
proof -
  let ?fs = fs_collision
  have h1: "existsSync ?fs SPRITE_DIR" and h5: "writable ?fs OUTPUT_FILE"
    and h2: "readdirSync ?fs SPRITE_DIR = Inr [''b.svg'', ''a.SVG.svg'', ''a.SVG'']"
    by (simp_all add: fs_collision_def)
  have h4: "[''a.SVG'', ''a.SVG.svg'', ''b.svg''] \<noteq> []" by simp
  have r: "\<not> readable ?fs ''b.svg''" "readable ?fs ''a.SVG.svg''" "readable ?fs ''a.SVG''"
    by (simp_all add: readable_def fs_collision_def path_join_def SPRITE_DIR_def)
  have "0 < (200::nat)" by simp
  from run_bundler_completes [where body = process_fixed, OF this records_fixed h1 h2 sort_collision h4 h5]
  obtain st where "bundleEmojis_fixed ?fs = \<lparr>exit_code = 0, written = Some st\<rparr>"
    "errors st = length (filter (\<lambda>f. \<not> readable ?fs f) [''a.SVG'', ''a.SVG.svg'', ''b.svg''])"
    "processed st = length (filter (readable ?fs) [''a.SVG'', ''a.SVG.svg'', ''b.svg''])"
    "dom (emojiData st) = key_of ` {f \<in> set [''a.SVG'', ''a.SVG.svg'', ''b.svg'']. readable ?fs f} - {''__proto__''}"
    unfolding bundleEmojis_fixed_def by auto
  moreover have "{f \<in> set [''a.SVG'', ''a.SVG.svg'', ''b.svg'']. readable ?fs f} = {''a.SVG'', ''a.SVG.svg''}"
    using r by auto
  ultimately show ?thesis using r by (simp add: key_of_examples)
qed

text \<open>
  C9. For every file name that the sprite builder is given (a name whose lower-cased form ends
  in \<open>.svg\<close>), the symbol id is \<open>e_\<close> followed by the name without its last four
  characters, the extension, with every character outside \<open>[a-zA-Z0-9_-]\<close> replaced by \<open>_\<close>.
\<close>

theorem idFromFilename_svg:
  assumes "is_svg_name name"
  shows "idFromFilename name =
     ''e_'' @ map (\<lambda>c. if id_safe c then c else CHR ''_'') (take (length name - 4) name)"
proof -
  from assms obtain base a b c where name: "name = base @ [CHR ''.'', a, b, c]"
    and ok: "not_slash_dot a" "not_slash_dot b" "not_slash_dot c"
    by (rule is_svg_name_split)
  have "replaceFirst False rx_extension (const_repl []) name = base"
    using replaceFirst_extension [of "[a, b, c]" base] ok by (simp add: name)
  moreover have "take (length name - 4) name = base" by (simp add: name)
  moreover have "replaceAll False rx_unsafe (const_repl ''_'') base
      = map (\<lambda>c. if id_safe c then c else CHR ''_'') base"
    by (induction base) (simp_all add: rx_unsafe_def replaceAll_Cls)
  ultimately show ?thesis by (simp add: idFromFilename_def)
qed

text \<open>Witness for C9.\<close>

theorem idFromFilename_svg_witness:
  "is_svg_name ''smile face.v2.SVG'' \<and> idFromFilename ''smile face.v2.SVG'' = ''e_smile_face_v2''"
proof -
  have h: "is_svg_name ''smile face.v2.SVG''"
    by code_simp
  show ?thesis using h idFromFilename_svg [OF h]
    by (simp add: id_safe_def is_digit_def less_eq_char_def)
qed

end
